theory Spec2Isabelle
  imports Complex_Main "HOL-Library.Sublist" "HOL-Library.Log_Nat"
begin

section \<open>Configuration (config.py)\<close>

text \<open>
  The dataclasses of config.py as records. A float field holds the rational its float
  stands for (every finite float is one); \<open>Optional\<close> fields are options. The list
  fields hold the values that \<open>__post_init__\<close> leaves there, so they are never
  \<open>None\<close>.
\<close>

record FilterConfig =
  older_than_days :: "int option"
  newer_than_days :: "int option"
  min_size_mb :: "rat option"
  max_size_mb :: "rat option"
  large_attachment_mb :: rat
  exclude_senders :: "string list"
  include_senders :: "string list"
  newsletter_domains :: "string list"
  exclude_labels :: "string list"
  include_labels :: "string list"
  exclude_folders :: "string list"
  custom_queries :: "string list"

record SafetyConfig =
  dry_run_mode :: bool
  require_confirmation :: bool
  backup_verification_level :: string
  soft_delete :: bool
  batch_size :: int
  rate_limit_delay :: rat
  max_retries :: int
  enable_rollback :: bool

record Config =
  filter_cfg :: FilterConfig
  safety :: SafetyConfig

text \<open>\<open>FilterConfig()\<close> and \<open>SafetyConfig()\<close>: the defaults of the dataclasses.\<close>

definition default_FilterConfig :: FilterConfig where
  "default_FilterConfig =
     \<lparr> older_than_days = Some 365, newer_than_days = None,
       min_size_mb = None, max_size_mb = None, large_attachment_mb = 10,
       exclude_senders = [], include_senders = [],
       newsletter_domains = [''noreply@'', ''no-reply@'', ''newsletter@'', ''marketing@'',
                             ''notifications@'', ''updates@'', ''support@''],
       exclude_labels = [''IMPORTANT'', ''STARRED''], include_labels = [],
       exclude_folders = [''SENT'', ''DRAFTS''], custom_queries = [] \<rparr>"

definition default_SafetyConfig :: SafetyConfig where
  "default_SafetyConfig =
     \<lparr> dry_run_mode = True, require_confirmation = True,
       backup_verification_level = ''full'', soft_delete = True, batch_size = 50,
       rate_limit_delay = 1 / 10, max_retries = 3, enable_rollback = True \<rparr>"

definition default_Config :: Config where
  "default_Config = \<lparr> filter_cfg = default_FilterConfig, safety = default_SafetyConfig \<rparr>"

section \<open>The Gmail client (gmail_client.py)\<close>

text \<open>
  The remote service is the object behind \<open>self.service\<close>. Each \<open>execute()\<close> is one
  call; the model keeps the history of calls made so far, and the service answers a call
  as a function of that history, so an answer may change from one attempt to the next.
  A call returns a value, raises \<open>HttpError\<close>, or raises some other exception.
  What the client writes to its logger is left out.
\<close>

datatype call = Get string string | Trash string | Delete string

datatype 'm response = Returned 'm | RaisedHttpError string | RaisedOther string

type_synonym 'm service = "call list \<Rightarrow> call \<Rightarrow> 'm response"

datatype exn =
    GmailAPIError string
  | TypeError
  | AttributeError
  | OverflowError
  | OtherException string

fun str_exn :: "exn \<Rightarrow> string" where
  "str_exn (GmailAPIError m) = m"
| "str_exn TypeError = ''TypeError''"
| "str_exn AttributeError = ''AttributeError''"
| "str_exn OverflowError = ''OverflowError''"
| "str_exn (OtherException m) = m"

record 'm GmailClient =
  config :: Config
  service :: "'m service"

record outcome =
  success :: "string list"
  failed :: "string list"

text \<open>
  \<open>get_message\<close>: one \<open>messages().get\<close> call; only \<open>HttpError\<close> is caught and turned
  into \<open>GmailAPIError\<close>.
\<close>

definition get_message ::
  "'m GmailClient \<Rightarrow> string \<Rightarrow> string \<Rightarrow> call list \<Rightarrow> (exn + 'm) \<times> call list" where
  "get_message self message_id format h =
     (let c = Get message_id format in
      case service self h c of
        Returned m \<Rightarrow> (Inr m, h @ [c])
      | RaisedHttpError e \<Rightarrow>
          (Inl (GmailAPIError (''Failed to get message '' @ message_id @ '': '' @ e)), h @ [c])
      | RaisedOther e \<Rightarrow> (Inl (OtherException e), h @ [c]))"

text \<open>The slices \<open>message_ids[i:i + 100]\<close> for \<open>i\<close> in \<open>range(0, len(message_ids), 100)\<close>.\<close>

function batches_from :: "nat \<Rightarrow> 'a list \<Rightarrow> 'a list list" where
  "batches_from i xs =
     (if i < length xs then take 100 (drop i xs) # batches_from (i + 100) xs else [])"
  by pat_completeness auto
termination
  by (relation "measure (\<lambda>(i, xs). length xs - i)") auto

declare batches_from.simps [simp del]

text \<open>The inner loop of \<open>get_messages_batch\<close>: fetch the ids of one batch in order.\<close>

fun fetch_batch ::
  "'m GmailClient \<Rightarrow> string \<Rightarrow> string list \<Rightarrow> 'm list \<Rightarrow> call list
     \<Rightarrow> (exn + 'm list) \<times> call list" where
  "fetch_batch self format [] batch_messages h = (Inr batch_messages, h)"
| "fetch_batch self format (msg_id # rest) batch_messages h =
     (case get_message self msg_id format h of
        (Inr message, h') \<Rightarrow> fetch_batch self format rest (batch_messages @ [message]) h'
      | (Inl e, h') \<Rightarrow> (Inl e, h'))"

text \<open>
  The outer loop: any exception of a batch is caught and raised again as
  \<open>GmailAPIError\<close>, which leaves the function.
\<close>

fun get_batches ::
  "'m GmailClient \<Rightarrow> string \<Rightarrow> string list list \<Rightarrow> 'm list \<Rightarrow> call list
     \<Rightarrow> (exn + 'm list) \<times> call list" where
  "get_batches self format [] messages h = (Inr messages, h)"
| "get_batches self format (batch_ids # rest) messages h =
     (case fetch_batch self format batch_ids [] h of
        (Inr batch_messages, h') \<Rightarrow> get_batches self format rest (messages @ batch_messages) h'
      | (Inl e, h') \<Rightarrow>
          (Inl (GmailAPIError (''Batch message retrieval failed: '' @ str_exn e)), h'))"

definition get_messages_batch ::
  "'m GmailClient \<Rightarrow> string list \<Rightarrow> string \<Rightarrow> call list \<Rightarrow> (exn + 'm list) \<times> call list" where
  "get_messages_batch self message_ids format h =
     (if message_ids = [] then (Inr [], h)
      else get_batches self format (batches_from 0 message_ids) [] h)"

text \<open>
  \<open>delete_message\<close>: one \<open>delete\<close> call when \<open>permanent\<close>, one \<open>trash\<close> call otherwise.
\<close>

definition mutation :: "bool \<Rightarrow> string \<Rightarrow> call" where
  "mutation permanent message_id = (if permanent then Delete message_id else Trash message_id)"

definition delete_message ::
  "'m GmailClient \<Rightarrow> string \<Rightarrow> bool \<Rightarrow> call list \<Rightarrow> (exn + bool) \<times> call list" where
  "delete_message self message_id permanent h =
     (let c = mutation permanent message_id in
      case service self h c of
        Returned m \<Rightarrow> (Inr True, h @ [c])
      | RaisedHttpError e \<Rightarrow>
          (Inl (GmailAPIError (''Failed to delete message '' @ message_id @ '': '' @ e)),
           h @ [c])
      | RaisedOther e \<Rightarrow> (Inl (OtherException e), h @ [c]))"

text \<open>
  The loop of \<open>delete_messages_batch\<close>: \<open>except GmailAPIError\<close> records the id as failed
  and goes on; any other exception leaves the function.
\<close>

fun delete_loop ::
  "'m GmailClient \<Rightarrow> bool \<Rightarrow> string list \<Rightarrow> string list \<Rightarrow> string list \<Rightarrow> call list
     \<Rightarrow> (exn + outcome) \<times> call list" where
  "delete_loop self permanent [] success_ids failed_ids h =
     (Inr \<lparr> success = success_ids, failed = failed_ids \<rparr>, h)"
| "delete_loop self permanent (message_id # rest) success_ids failed_ids h =
     (case delete_message self message_id permanent h of
        (Inr ok, h') \<Rightarrow> delete_loop self permanent rest (success_ids @ [message_id]) failed_ids h'
      | (Inl (GmailAPIError m), h') \<Rightarrow>
          delete_loop self permanent rest success_ids (failed_ids @ [message_id]) h'
      | (Inl e, h') \<Rightarrow> (Inl e, h'))"

definition delete_messages_batch ::
  "'m GmailClient \<Rightarrow> string list \<Rightarrow> bool \<Rightarrow> call list \<Rightarrow> (exn + outcome) \<times> call list" where
  "delete_messages_batch self message_ids permanent h =
     (if message_ids = [] then (Inr \<lparr> success = [], failed = [] \<rparr>, h)
      else delete_loop self permanent message_ids [] [] h)"

section \<open>Python values, strings and the runtime\<close>

text \<open>
  The email metadata is a dictionary from keys to Python values of any type. \<open>pyval\<close>
  holds the kinds of value that \<open>extract_message_metadata\<close> stores (strings, lists,
  integers, booleans, datetimes) and \<open>None\<close>. A datetime is its count of microseconds
  since the first instant of year 1 (in its own zone) together with its \<open>tzinfo\<close>, if
  it has one. Strings are lists of 8-bit characters and \<open>lower\<close> folds the ASCII
  letters.
\<close>

datatype pyval =
    PNone
  | PBool bool
  | PInt int
  | PStr string
  | PList "pyval list"
  | PDatetime int "int option"

text \<open>
  A value of the diagnostic dictionary of a \<open>FilterResult\<close>: one of the values above,
  or a float. A float is the rational it stands for.
\<close>

datatype detail = Plain pyval | Float rat

type_synonym email_metadata = "string \<rightharpoonup> pyval"

text \<open>\<open>d.get(key, default)\<close>.\<close>

definition dict_get :: "email_metadata \<Rightarrow> string \<Rightarrow> pyval \<Rightarrow> pyval" where
  "dict_get d key dflt = (case d key of None \<Rightarrow> dflt | Some v \<Rightarrow> v)"

text \<open>The truth value of an object in a condition.\<close>

fun truthy :: "pyval \<Rightarrow> bool" where
  "truthy PNone = False"
| "truthy (PBool b) = b"
| "truthy (PInt n) = (n \<noteq> 0)"
| "truthy (PStr s) = (s \<noteq> [])"
| "truthy (PList xs) = (xs \<noteq> [])"
| "truthy (PDatetime t tz) = True"

definition lower_char :: "char \<Rightarrow> char" where
  "lower_char c =
     (let n = (of_char c :: nat) in if 65 \<le> n \<and> n \<le> 90 then char_of (n + 32) else c)"

definition lower :: "string \<Rightarrow> string" where
  "lower s = map lower_char s"

text \<open>\<open>sub in s\<close> on strings: \<open>sub\<close> occurs in \<open>s\<close> as a contiguous piece.\<close>

fun substring :: "string \<Rightarrow> string \<Rightarrow> bool" where
  "substring sub [] = (sub = [])"
| "substring sub (c # cs) = (prefix sub (c # cs) \<or> substring sub cs)"

text \<open>
  \<open>x in v\<close> for a string \<open>x\<close>: membership in a list, containment in a string, and
  \<open>TypeError\<close> for a value that is not iterable.
\<close>

fun py_in :: "string \<Rightarrow> pyval \<Rightarrow> exn + bool" where
  "py_in x (PList xs) = Inr (PStr x \<in> set xs)"
| "py_in x (PStr s) = Inr (substring x s)"
| "py_in x v = Inl TypeError"

text \<open>\<open>v.lower()\<close>: only a string has the method.\<close>

fun py_lower :: "pyval \<Rightarrow> exn + string" where
  "py_lower (PStr s) = Inr (lower s)"
| "py_lower v = Inl AttributeError"

text \<open>\<open>str(n)\<close> of an integer, in decimal.\<close>

function str_nat :: "nat \<Rightarrow> string" where
  "str_nat n =
     (if n < 10 then [char_of (48 + n)] else str_nat (n div 10) @ [char_of (48 + n mod 10)])"
  by pat_completeness auto
termination
  by (relation "measure id") auto

declare str_nat.simps [simp del]

definition str_int :: "int \<Rightarrow> string" where
  "str_int i = (if i < 0 then CHR ''-'' # str_nat (nat (- i)) else str_nat (nat i))"

text \<open>\<open>sep.join(parts)\<close>.\<close>

fun join :: "string \<Rightarrow> string list \<Rightarrow> string" where
  "join sep [] = []"
| "join sep [x] = x"
| "join sep (x # y # ys) = x @ sep @ join sep (y # ys)"

text \<open>\<open>int(x)\<close> of a float: truncation towards zero.\<close>

definition int_of_float :: "rat \<Rightarrow> int" where
  "int_of_float r = (if 0 \<le> r then \<lfloor>r\<rfloor> else \<lceil>r\<rceil>)"

text \<open>
  \<open>{x:.2f}\<close> in an f-string: the exact value of \<open>x\<close> rounded to two decimals, a tie
  going to the even neighbour, with a minus sign for a negative \<open>x\<close>.
\<close>

definition round_half_even :: "rat \<Rightarrow> int" where
  "round_half_even x =
     (let f = \<lfloor>x\<rfloor>; d = x - of_int f in
      if d < 1 / 2 then f else if 1 / 2 < d then f + 1 else if even f then f else f + 1)"

definition format_2f :: "rat \<Rightarrow> string" where
  "format_2f x =
     (let c = nat (round_half_even (\<bar>x\<bar> * 100)) in
      (if x < 0 then ''-'' else []) @ str_nat (c div 100) @ ''.''
        @ str_nat (c mod 100 div 10) @ str_nat (c mod 10))"

text \<open>
  What the filter takes from outside the repository: the clock (\<open>datetime.now(tz)\<close>,
  with \<open>None\<close> for the naive local time), \<open>email.utils.parseaddr\<close>, and the
  rendering \<open>{x}\<close> of a float in an f-string (its \<open>repr\<close>).
\<close>

record runtime =
  now :: "int option \<Rightarrow> int"
  parseaddr :: "string \<Rightarrow> string \<times> string"
  str_float :: "rat \<Rightarrow> string"

text \<open>\<open>timedelta(days=1)\<close> in microseconds.\<close>

definition day :: int where
  "day = 86400000000"

text \<open>
  \<open>now - timedelta(days=n)\<close>. A \<open>timedelta\<close> holds at most 999999999 days, and a
  datetime lies between the first instant of year 1 and the last of year 9999 (3652059
  days); out of either range the operation raises \<open>OverflowError\<close>.
\<close>

definition datetime_end :: int where
  "datetime_end = 3652059 * day"

definition minus_days :: "int \<Rightarrow> int \<Rightarrow> exn + int" where
  "minus_days now_v n =
     (if 999999999 < \<bar>n\<bar> then Inl OverflowError
      else (let d = now_v - n * day in
            if 0 \<le> d \<and> d < datetime_end then Inr d else Inl OverflowError))"

text \<open>
  \<open>n / (1024 * 1024)\<close> for an integer \<open>n\<close>: the float nearest to the quotient.
  Dividing by a power of two keeps the digits, so this is \<open>n\<close> rounded to 53
  significant bits (a tie going to the even neighbour), divided exactly; when the
  rounded quotient reaches \<open>2^1024\<close> the division raises \<open>OverflowError\<close>.
\<close>

definition round_to_float :: "int \<Rightarrow> int" where
  "round_to_float n =
     (let a = \<bar>n\<bar>; shift = bitlen a - 53 in
      if shift \<le> 0 then n
      else (let p = 2 ^ nat shift; q = a div p; r = a mod p;
                q' = (if p < 2 * r \<or> (2 * r = p \<and> odd q) then q + 1 else q)
            in sgn n * (q' * p)))"

definition divide_by_mb :: "int \<Rightarrow> exn + detail" where
  "divide_by_mb n =
     (let m = round_to_float n in
      if 2 ^ 1044 \<le> \<bar>m\<bar> then Inl OverflowError
      else Inr (Float (of_int m / (1024 * 1024))))"

section \<open>The filter engine (email_filter.py)\<close>

record FilterResult =
  should_process :: bool
  reason :: string
  confidence :: rat
  filter_type :: string
  metadata :: "(string \<times> detail) list"

subsection \<open>\<open>_check_exclusions\<close>\<close>

fun exclude_label_loop :: "string list \<Rightarrow> pyval \<Rightarrow> exn + FilterResult option" where
  "exclude_label_loop [] label_ids = Inr None"
| "exclude_label_loop (exclude_label # rest) label_ids =
     (case py_in exclude_label label_ids of
        Inl e \<Rightarrow> Inl e
      | Inr found \<Rightarrow>
          if found
          then Inr (Some \<lparr> should_process = False,
                           reason = ''Has excluded label: '' @ exclude_label,
                           confidence = 1, filter_type = ''exclusion'',
                           metadata = [(''excluded_label'', Plain (PStr exclude_label))] \<rparr>)
          else exclude_label_loop rest label_ids)"

fun exclude_folder_loop :: "string list \<Rightarrow> pyval \<Rightarrow> exn + FilterResult option" where
  "exclude_folder_loop [] label_ids = Inr None"
| "exclude_folder_loop (exclude_folder # rest) label_ids =
     (case py_in exclude_folder label_ids of
        Inl e \<Rightarrow> Inl e
      | Inr found \<Rightarrow>
          if found
          then Inr (Some \<lparr> should_process = False,
                           reason = ''In excluded folder: '' @ exclude_folder,
                           confidence = 1, filter_type = ''exclusion'',
                           metadata = [(''excluded_folder'', Plain (PStr exclude_folder))] \<rparr>)
          else exclude_folder_loop rest label_ids)"

fun exclude_sender_loop :: "string list \<Rightarrow> string \<Rightarrow> FilterResult option" where
  "exclude_sender_loop [] sender = None"
| "exclude_sender_loop (exclude_sender # rest) sender =
     (if substring (lower exclude_sender) sender
      then Some \<lparr> should_process = False,
                  reason = ''From excluded sender: '' @ exclude_sender,
                  confidence = 1, filter_type = ''exclusion'',
                  metadata = [(''excluded_sender'', Plain (PStr exclude_sender))] \<rparr>
      else exclude_sender_loop rest sender)"

definition check_exclusions :: "FilterConfig \<Rightarrow> email_metadata \<Rightarrow> exn + FilterResult option" where
  "check_exclusions cfg md =
     (let label_ids = dict_get md ''label_ids'' (PList []) in
      case exclude_label_loop (exclude_labels cfg) label_ids of
        Inl e \<Rightarrow> Inl e
      | Inr (Some r) \<Rightarrow> Inr (Some r)
      | Inr None \<Rightarrow>
         (case exclude_folder_loop (exclude_folders cfg) label_ids of
            Inl e \<Rightarrow> Inl e
          | Inr (Some r) \<Rightarrow> Inr (Some r)
          | Inr None \<Rightarrow>
             (case py_lower (dict_get md ''from'' (PStr [])) of
                Inl e \<Rightarrow> Inl e
              | Inr sender \<Rightarrow> Inr (exclude_sender_loop (exclude_senders cfg) sender))))"

subsection \<open>\<open>_check_time_filters\<close>\<close>

text \<open>
  The two checks on a parsed date. \<open>now_v\<close> is the clock reading and \<open>email_date\<close>
  the date of the message, both in microseconds; \<open>(now - email_date).days\<close> is the
  floor of the difference in days. The cutoff is computed only when the bound is set
  and not zero.
\<close>

definition check_older_than :: "FilterConfig \<Rightarrow> int \<Rightarrow> int \<Rightarrow> exn + FilterResult option" where
  "check_older_than cfg now_v email_date =
     (case older_than_days cfg of
        None \<Rightarrow> Inr None
      | Some n \<Rightarrow>
          if n \<noteq> 0 then
            (case minus_days now_v n of
               Inl e \<Rightarrow> Inl e
             | Inr cutoff_date \<Rightarrow>
                 if email_date > cutoff_date
                 then Inr (Some \<lparr> should_process = False,
                                  reason = ''Email too recent (newer than '' @ str_int n
                                           @ '' days)'',
                                  confidence = 1, filter_type = ''time'',
                                  metadata =
                                    [(''email_age_days'',
                                      Plain (PInt ((now_v - email_date) div day))),
                                     (''cutoff_days'', Plain (PInt n))] \<rparr>)
                 else Inr None)
          else Inr None)"

definition check_newer_than :: "FilterConfig \<Rightarrow> int \<Rightarrow> int \<Rightarrow> exn + FilterResult option" where
  "check_newer_than cfg now_v email_date =
     (case newer_than_days cfg of
        None \<Rightarrow> Inr None
      | Some n \<Rightarrow>
          if n \<noteq> 0 then
            (case minus_days now_v n of
               Inl e \<Rightarrow> Inl e
             | Inr cutoff_date \<Rightarrow>
                 if email_date < cutoff_date
                 then Inr (Some \<lparr> should_process = False,
                                  reason = ''Email too old (older than '' @ str_int n
                                           @ '' days)'',
                                  confidence = 1, filter_type = ''time'',
                                  metadata =
                                    [(''email_age_days'',
                                      Plain (PInt ((now_v - email_date) div day))),
                                     (''min_age_days'', Plain (PInt n))] \<rparr>)
                 else Inr None)
          else Inr None)"

definition check_time_filters ::
  "FilterConfig \<Rightarrow> runtime \<Rightarrow> email_metadata \<Rightarrow> exn + FilterResult option" where
  "check_time_filters cfg rt md =
     (let email_date = dict_get md ''date'' PNone in
      if \<not> truthy email_date
      then Inr (Some \<lparr> should_process = False, reason = ''Unable to parse email date'',
                       confidence = 1 / 2, filter_type = ''time'',
                       metadata = [(''date_parse_error'', Plain (PBool True))] \<rparr>)
      else
        (case email_date of
           PDatetime t tz \<Rightarrow>
             (let now_v = now rt tz in
              case check_older_than cfg now_v t of
                Inl e \<Rightarrow> Inl e
              | Inr (Some r) \<Rightarrow> Inr (Some r)
              | Inr None \<Rightarrow> check_newer_than cfg now_v t)
         | _ \<Rightarrow> Inl AttributeError))"

subsection \<open>\<open>_check_size_filters\<close>\<close>

text \<open>
  \<open>size_bytes / (1024 * 1024) if size_bytes else 0\<close>: a float for a size that counts
  as true (\<open>True\<close> divides as 1), the integer 0 otherwise.
\<close>

definition size_in_mb :: "pyval \<Rightarrow> exn + detail" where
  "size_in_mb size_bytes =
     (if truthy size_bytes then
        (case size_bytes of
           PInt n \<Rightarrow> divide_by_mb n
         | PBool b \<Rightarrow> divide_by_mb 1
         | _ \<Rightarrow> Inl TypeError)
      else Inr (Plain (PInt 0)))"

text \<open>The number a numeric value stands for in a comparison.\<close>

fun number :: "detail \<Rightarrow> rat" where
  "number (Plain (PInt n)) = of_int n"
| "number (Float r) = r"
| "number v = 0"

definition check_min_size :: "FilterConfig \<Rightarrow> runtime \<Rightarrow> detail \<Rightarrow> FilterResult option" where
  "check_min_size cfg rt size_mb =
     (case min_size_mb cfg of
        None \<Rightarrow> None
      | Some m \<Rightarrow>
          if m \<noteq> 0 \<and> number size_mb < m
          then Some \<lparr> should_process = False,
                      reason = ''Email too small ('' @ format_2f (number size_mb)
                               @ '' MB < '' @ str_float rt m @ '' MB)'',
                      confidence = 4 / 5, filter_type = ''size'',
                      metadata = [(''size_mb'', size_mb), (''min_size_mb'', Float m)] \<rparr>
          else None)"

definition check_max_size :: "FilterConfig \<Rightarrow> runtime \<Rightarrow> detail \<Rightarrow> FilterResult option" where
  "check_max_size cfg rt size_mb =
     (case max_size_mb cfg of
        None \<Rightarrow> None
      | Some m \<Rightarrow>
          if m \<noteq> 0 \<and> number size_mb > m
          then Some \<lparr> should_process = False,
                      reason = ''Email too large ('' @ format_2f (number size_mb)
                               @ '' MB > '' @ str_float rt m @ '' MB)'',
                      confidence = 4 / 5, filter_type = ''size'',
                      metadata = [(''size_mb'', size_mb), (''max_size_mb'', Float m)] \<rparr>
          else None)"

definition check_size_filters ::
  "FilterConfig \<Rightarrow> runtime \<Rightarrow> email_metadata \<Rightarrow> exn + FilterResult option" where
  "check_size_filters cfg rt md =
     (let size_bytes = dict_get md ''size_estimate'' (PInt 0) in
      case size_in_mb size_bytes of
        Inl e \<Rightarrow> Inl e
      | Inr size_mb \<Rightarrow>
          (case check_min_size cfg rt size_mb of
             Some r \<Rightarrow> Inr (Some r)
           | None \<Rightarrow> Inr (check_max_size cfg rt size_mb)))"

subsection \<open>\<open>_check_sender_filters\<close>, \<open>_check_content_filters\<close>, \<open>_check_custom_queries\<close>\<close>

definition check_sender_filters ::
  "FilterConfig \<Rightarrow> runtime \<Rightarrow> email_metadata \<Rightarrow> exn + FilterResult option" where
  "check_sender_filters cfg rt md =
     (case py_lower (dict_get md ''from'' (PStr [])) of
        Inl e \<Rightarrow> Inl e
      | Inr sender \<Rightarrow>
          (let sender_email = lower (snd (parseaddr rt sender)) in
           if include_senders cfg \<noteq> [] then
             (let included =
                    list_ex (\<lambda>include_sender. substring (lower include_sender) sender)
                      (include_senders cfg) in
              if \<not> included
              then Inr (Some \<lparr> should_process = False, reason = ''Sender not in whitelist'',
                               confidence = 9 / 10, filter_type = ''sender'',
                               metadata = [(''sender'', Plain (PStr sender_email)),
                                           (''whitelist_only'', Plain (PBool True))] \<rparr>)
              else Inr None)
           else Inr None))"

text \<open>\<open>any(label in label_ids for label in labels)\<close>, which stops at the first hit.\<close>

fun any_label_in :: "string list \<Rightarrow> pyval \<Rightarrow> exn + bool" where
  "any_label_in [] label_ids = Inr False"
| "any_label_in (label # rest) label_ids =
     (case py_in label label_ids of
        Inl e \<Rightarrow> Inl e
      | Inr found \<Rightarrow> if found then Inr True else any_label_in rest label_ids)"

definition check_content_filters :: "FilterConfig \<Rightarrow> email_metadata \<Rightarrow> exn + FilterResult option" where
  "check_content_filters cfg md =
     (if include_labels cfg \<noteq> [] then
        (let label_ids = dict_get md ''label_ids'' (PList []) in
         case any_label_in (include_labels cfg) label_ids of
           Inl e \<Rightarrow> Inl e
         | Inr has_required_label \<Rightarrow>
             if \<not> has_required_label
             then Inr (Some \<lparr> should_process = False, reason = ''Missing required labels'',
                              confidence = 4 / 5, filter_type = ''content'',
                              metadata =
                                [(''required_labels'',
                                  Plain (PList (map PStr (include_labels cfg)))),
                                 (''email_labels'', Plain label_ids)] \<rparr>)
             else Inr None)
      else Inr None)"

definition check_custom_queries :: "email_metadata \<Rightarrow> exn + FilterResult option" where
  "check_custom_queries md = Inr None"

subsection \<open>\<open>should_process_email\<close>\<close>

text \<open>
  The loop over the filters: the first result that is there and does not accept is
  returned; an exception of a filter leaves the function.
\<close>

fun run_filters ::
  "(email_metadata \<Rightarrow> exn + FilterResult option) list \<Rightarrow> email_metadata \<Rightarrow> exn + FilterResult" where
  "run_filters [] md =
     Inr \<lparr> should_process = True, reason = ''Passed all filter criteria'',
           confidence = 4 / 5, filter_type = ''inclusive'',
           metadata = [(''passed_all_filters'', Plain (PBool True))] \<rparr>"
| "run_filters (filter_func # rest) md =
     (case filter_func md of
        Inl e \<Rightarrow> Inl e
      | Inr None \<Rightarrow> run_filters rest md
      | Inr (Some result) \<Rightarrow>
          if \<not> should_process result then Inr result else run_filters rest md)"

definition should_process_email ::
  "FilterConfig \<Rightarrow> runtime \<Rightarrow> email_metadata \<Rightarrow> exn + FilterResult" where
  "should_process_email cfg rt md =
     run_filters [check_exclusions cfg, check_time_filters cfg rt, check_size_filters cfg rt,
                  check_sender_filters cfg rt, check_content_filters cfg, check_custom_queries] md"

subsection \<open>\<open>categorize_email\<close>\<close>

text \<open>
  A compiled pattern is the list of the literal strings it matches: all patterns of
  \<open>_compile_patterns\<close> are literals, except \<open>promotional?\<close>, which matches
  \<open>promotional\<close> and \<open>promotiona\<close>. \<open>pattern.search(s)\<close> under \<open>re.IGNORECASE\<close>
  looks for one of them in \<open>s\<close>, letters compared without case.
\<close>

definition newsletter_patterns :: "string list list" where
  "newsletter_patterns =
     [[''unsubscribe''], [''newsletter''], [''marketing''], [''promotional'', ''promotiona''],
      [''offer''], [''deal''], [''sale''], [''discount''], [''click here''], [''limited time'']]"

definition automated_patterns :: "string list list" where
  "automated_patterns =
     [[''noreply''], [''no-reply''], [''donotreply''], [''automated''], [''notification''],
      [''alert''], [''system'']]"

definition pattern_search :: "string list \<Rightarrow> string \<Rightarrow> bool" where
  "pattern_search pattern s = list_ex (\<lambda>lit. substring (lower lit) (lower s)) pattern"

definition promotional_keywords :: "string list" where
  "promotional_keywords = [''sale'', ''deal'', ''offer'', ''discount'', ''limited time'', ''%'']"

definition receipt_keywords :: "string list" where
  "receipt_keywords =
     [''receipt'', ''invoice'', ''payment'', ''order'', ''purchase'', ''transaction'']"

record categories =
  is_newsletter :: bool
  is_promotional :: bool
  is_automated :: bool
  is_social :: bool
  is_receipt :: bool
  confidence_scores :: "(string \<times> rat) list"

text \<open>
  The scores are the exact sums of the weights. In the source they are sums of floats;
  a sum of at most two equal weights is exact there too (doubling a float loses
  nothing), so at those sums the comparisons with the thresholds agree.
\<close>

definition newsletter_score :: "FilterConfig \<Rightarrow> string \<Rightarrow> string \<Rightarrow> rat" where
  "newsletter_score cfg subject sender_email =
     (\<Sum>pattern \<leftarrow> newsletter_patterns. if pattern_search pattern subject then 3 / 10 else 0)
     + (\<Sum>domain_pattern \<leftarrow> newsletter_domains cfg.
          if substring domain_pattern sender_email then 4 / 10 else 0)"

definition automated_score :: "string \<Rightarrow> string \<Rightarrow> rat" where
  "automated_score subject sender_email =
     (\<Sum>pattern \<leftarrow> automated_patterns.
        (if pattern_search pattern sender_email then 5 / 10 else 0)
        + (if pattern_search pattern subject then 3 / 10 else 0))"

definition promotional_score :: "string \<Rightarrow> rat" where
  "promotional_score subject =
     (\<Sum>keyword \<leftarrow> filter (\<lambda>keyword. substring keyword subject) promotional_keywords. 2 / 10)"

definition receipt_score :: "string \<Rightarrow> rat" where
  "receipt_score subject =
     (\<Sum>keyword \<leftarrow> filter (\<lambda>keyword. substring keyword subject) receipt_keywords. 3 / 10)"

definition categorize_email :: "FilterConfig \<Rightarrow> runtime \<Rightarrow> email_metadata \<Rightarrow> exn + categories" where
  "categorize_email cfg rt md =
     (case py_lower (dict_get md ''subject'' (PStr [])) of
        Inl e \<Rightarrow> Inl e
      | Inr subject \<Rightarrow>
         (case py_lower (dict_get md ''from'' (PStr [])) of
            Inl e \<Rightarrow> Inl e
          | Inr sender \<Rightarrow>
             (let sender_email = lower (snd (parseaddr rt sender));
                  newsletter = newsletter_score cfg subject sender_email;
                  automated = automated_score subject sender_email;
                  promotional = promotional_score subject;
                  receipt = receipt_score subject
              in Inr \<lparr> is_newsletter = newsletter > 5 / 10,
                        is_promotional = promotional > 4 / 10,
                        is_automated = automated > 5 / 10,
                        is_social = False,
                        is_receipt = receipt > 6 / 10,
                        confidence_scores =
                          [(''newsletter'', min newsletter 1), (''automated'', min automated 1),
                           (''promotional'', min promotional 1), (''receipt'', min receipt 1)] \<rparr>)))"

subsection \<open>\<open>build_gmail_query\<close>\<close>

definition build_gmail_query :: "FilterConfig \<Rightarrow> string" where
  "build_gmail_query cfg =
     join '' ''
       ((case older_than_days cfg of
           Some n \<Rightarrow> if n \<noteq> 0 then [''older_than:'' @ str_int n @ ''d''] else []
         | None \<Rightarrow> [])
        @ (case newer_than_days cfg of
             Some n \<Rightarrow> if n \<noteq> 0 then [''newer_than:'' @ str_int n @ ''d''] else []
           | None \<Rightarrow> [])
        @ (case min_size_mb cfg of
             Some m \<Rightarrow>
               if m \<noteq> 0 then [''larger:'' @ str_int (int_of_float (m * 1024 * 1024))] else []
           | None \<Rightarrow> [])
        @ (case max_size_mb cfg of
             Some m \<Rightarrow>
               if m \<noteq> 0 then [''smaller:'' @ str_int (int_of_float (m * 1024 * 1024))] else []
           | None \<Rightarrow> [])
        @ map (\<lambda>label. ''-label:'' @ label) (exclude_labels cfg)
        @ map (\<lambda>folder. ''-in:'' @ folder) (exclude_folders cfg)
        @ (if include_labels cfg \<noteq> []
           then [''('' @ join '' OR '' (map (\<lambda>label. ''label:'' @ label) (include_labels cfg)) @ '')'']
           else [])
        @ map (\<lambda>sender. ''-from:'' @ sender) (exclude_senders cfg)
        @ (if include_senders cfg \<noteq> []
           then [''('' @ join '' OR '' (map (\<lambda>sender. ''from:'' @ sender) (include_senders cfg)) @ '')'']
           else [])
        @ custom_queries cfg)"

section \<open>Well-typed metadata\<close>

text \<open>
  A metadata dictionary is well typed when each key the filter reads is either missing
  or holds a value of its type: a list under \<open>label_ids\<close>, a string under \<open>from\<close>
  and \<open>subject\<close>, an integer under \<open>size_estimate\<close>, a datetime or \<open>None\<close> under
  \<open>date\<close> (\<open>extract_message_metadata\<close> stores \<open>None\<close> for a date it cannot parse).
\<close>

definition well_typed :: "email_metadata \<Rightarrow> bool" where
  "well_typed md =
     ((case md ''label_ids'' of None \<Rightarrow> True | Some (PList xs) \<Rightarrow> True | Some v \<Rightarrow> False)
      \<and> (case md ''from'' of None \<Rightarrow> True | Some (PStr s) \<Rightarrow> True | Some v \<Rightarrow> False)
      \<and> (case md ''subject'' of None \<Rightarrow> True | Some (PStr s) \<Rightarrow> True | Some v \<Rightarrow> False)
      \<and> (case md ''size_estimate'' of None \<Rightarrow> True | Some (PInt n) \<Rightarrow> True | Some v \<Rightarrow> False)
      \<and> (case md ''date'' of None \<Rightarrow> True | Some PNone \<Rightarrow> True
          | Some (PDatetime t tz) \<Rightarrow> True | Some v \<Rightarrow> False))"





section \<open>Concrete inputs\<close>

text \<open>
  A mailbox in which every call on the message \<open>b\<close> raises \<open>HttpError\<close> (404) and every
  other call returns; the same mailbox with a connection that times out on \<open>b\<close>, which
  is no \<open>HttpError\<close>; a service that refuses the first attempt of every call (429) and
  accepts the call once it has been made before; a service that accepts everything.
  The clients run with the default configuration, where \<open>dry_run_mode\<close> is on and
  \<open>max_retries\<close> is 3; the last configuration has \<open>dry_run_mode\<close> off.
\<close>

definition mailbox_service :: "string service" where
  "mailbox_service h c =
     (case c of
        Get i f \<Rightarrow> if i = ''b'' then RaisedHttpError ''404'' else Returned (''message '' @ i)
      | Trash i \<Rightarrow> if i = ''b'' then RaisedHttpError ''404'' else Returned []
      | Delete i \<Rightarrow> if i = ''b'' then RaisedHttpError ''404'' else Returned [])"

definition mailbox_client :: "string GmailClient" where
  "mailbox_client = \<lparr> config = default_Config, service = mailbox_service \<rparr>"

definition timeout_service :: "string service" where
  "timeout_service h c =
     (case c of
        Get i f \<Rightarrow> if i = ''b'' then RaisedOther ''timed out'' else Returned (''message '' @ i)
      | Trash i \<Rightarrow> if i = ''b'' then RaisedOther ''timed out'' else Returned []
      | Delete i \<Rightarrow> if i = ''b'' then RaisedOther ''timed out'' else Returned [])"

definition timeout_client :: "string GmailClient" where
  "timeout_client = \<lparr> config = default_Config, service = timeout_service \<rparr>"

definition flaky_service :: "string service" where
  "flaky_service h c = (if c \<in> set h then Returned [] else RaisedHttpError ''429'')"

definition flaky_client :: "string GmailClient" where
  "flaky_client = \<lparr> config = default_Config, service = flaky_service \<rparr>"

definition accepting_service :: "string service" where
  "accepting_service h c = Returned []"

definition accepting_client :: "string GmailClient" where
  "accepting_client = \<lparr> config = default_Config, service = accepting_service \<rparr>"

definition live_Config :: Config where
  "live_Config = default_Config \<lparr> safety := default_SafetyConfig \<lparr> dry_run_mode := False \<rparr> \<rparr>"

text \<open>
  A runtime whose clock stands at day 739000 (in the year 2024), whose \<open>parseaddr\<close>
  takes the whole string for the address, as it does for a bare address, and whose
  \<open>str_float\<close> renders a float of integral value as Python does below \<open>10^16\<close>
  (\<open>1.0\<close> for 1); it is used on no other float.
\<close>

definition plain_runtime :: runtime where
  "plain_runtime =
     \<lparr> now = (\<lambda>tz. 739000 * day), parseaddr = (\<lambda>s. ([], s)),
       str_float = (\<lambda>r. str_int \<lfloor>r\<rfloor> @ ''.0'') \<rparr>"

text \<open>
  The messages: two undated ones, with and without an excluded label; a recent one with
  an excluded label; one dated exactly 365 days, one exactly 30 days before the clock
  reading, one a day after it; an old one with no other key; one whose sender is
  \<open>None\<close>; one whose size is a string, one whose size is \<open>10^400\<close>; and the
  promotional message of the scenario.
\<close>

definition important_undated :: email_metadata where
  "important_undated = [''label_ids'' \<mapsto> PList [PStr ''INBOX'', PStr ''IMPORTANT'']]"

definition inbox_undated :: email_metadata where
  "inbox_undated = [''label_ids'' \<mapsto> PList [PStr ''INBOX''], ''date'' \<mapsto> PNone]"

definition important_recent :: email_metadata where
  "important_recent =
     [''label_ids'' \<mapsto> PList [PStr ''INBOX'', PStr ''IMPORTANT''],
      ''date'' \<mapsto> PDatetime (738990 * day) None, ''size_estimate'' \<mapsto> PInt 25000,
      ''from'' \<mapsto> PStr ''boss@company.com'']"








definition special_offer :: email_metadata where
  "special_offer =
     [''subject'' \<mapsto> PStr ''Special Offer - 50% Off!'', ''from'' \<mapsto> PStr ''sales@retailer.com'']"





definition query_config :: FilterConfig where
  "query_config =
     \<lparr> older_than_days = Some 30, newer_than_days = None,
       min_size_mb = None, max_size_mb = None, large_attachment_mb = 10,
       exclude_senders = [], include_senders = [], newsletter_domains = [],
       exclude_labels = [''SENT''], include_labels = [],
       exclude_folders = [], custom_queries = [] \<rparr>"

section \<open>Batch deletion\<close>

lemma delete_message_Returned:
  "service self h (mutation p i) = Returned m \<Longrightarrow>
   delete_message self i p h = (Inr True, h @ [mutation p i])"
  by (simp add: delete_message_def)

lemma delete_message_HttpError:
  "service self h (mutation p i) = RaisedHttpError e \<Longrightarrow>
   delete_message self i p h =
     (Inl (GmailAPIError (''Failed to delete message '' @ i @ '': '' @ e)), h @ [mutation p i])"
  by (simp add: delete_message_def)

text \<open>
  When every id either always succeeds (\<open>P\<close>) or always raises \<open>HttpError\<close>, the loop
  makes one call per id and sorts the ids into the two lists.
\<close>

lemma delete_loop_partition:
  assumes "\<forall>h. \<forall>i\<in>set ids. (P i \<longrightarrow> (\<exists>m. service self h (mutation p i) = Returned m)) \<and>
                 (\<not> P i \<longrightarrow> (\<exists>e. service self h (mutation p i) = RaisedHttpError e))"
  shows "delete_loop self p ids s f h =
           (Inr \<lparr> success = s @ filter P ids, failed = f @ filter (\<lambda>i. \<not> P i) ids \<rparr>,
            h @ map (mutation p) ids)"
  using assms
proof (induction ids arbitrary: s f h)
  case Nil
  then show ?case by simp
next
  case (Cons i ids)
  have rest: "\<forall>h. \<forall>j\<in>set ids. (P j \<longrightarrow> (\<exists>m. service self h (mutation p j) = Returned m)) \<and>
                 (\<not> P j \<longrightarrow> (\<exists>e. service self h (mutation p j) = RaisedHttpError e))"
    using Cons.prems by simp
  show ?case
  proof (cases "P i")
    case True
    then obtain m where "service self h (mutation p i) = Returned m"
      using Cons.prems by auto
    then show ?thesis
      using True Cons.IH [OF rest] by (simp add: delete_message_Returned)
  next
    case False
    then obtain e where "service self h (mutation p i) = RaisedHttpError e"
      using Cons.prems by auto
    then show ?thesis
      using False Cons.IH [OF rest] by (simp add: delete_message_HttpError)
  qed
qed

text \<open>
  When no call raises anything but \<open>HttpError\<close>, the loop makes exactly one call per id,
  in order, and an id whose call raised is in the failed list.
\<close>

lemma delete_loop_calls:
  assumes "\<forall>h e. \<forall>i\<in>set ids. service self h (mutation p i) \<noteq> RaisedOther e"
  shows "snd (delete_loop self p ids s f h) = h @ map (mutation p) ids"
  using assms
proof (induction ids arbitrary: s f h)
  case Nil
  then show ?case by simp
next
  case (Cons i ids)
  have rest: "\<forall>h e. \<forall>j\<in>set ids. service self h (mutation p j) \<noteq> RaisedOther e"
    using Cons.prems by simp
  show ?case
  proof (cases "service self h (mutation p i)")
    case (Returned m)
    then show ?thesis using Cons.IH [OF rest] by (simp add: delete_message_Returned)
  next
    case (RaisedHttpError e)
    then show ?thesis using Cons.IH [OF rest] by (simp add: delete_message_HttpError)
  next
    case (RaisedOther e)
    then show ?thesis using Cons.prems by simp
  qed
qed

lemma delete_loop_failed:
  assumes "\<forall>h e. \<forall>i\<in>set ids. service self h (mutation p i) \<noteq> RaisedOther e"
  shows "\<exists>out. fst (delete_loop self p ids s f h) = Inr out \<and>
           length (success out) + length (failed out) = length s + length f + length ids \<and>
           set f \<subseteq> set (failed out) \<and>
           (\<forall>k<length ids.
              (\<exists>e. service self (h @ map (mutation p) (take k ids)) (mutation p (ids ! k))
                     = RaisedHttpError e)
              \<longrightarrow> ids ! k \<in> set (failed out))"
  using assms
proof (induction ids arbitrary: s f h)
  case Nil
  then show ?case by simp
next
  case (Cons i ids)
  have rest: "\<forall>h e. \<forall>j\<in>set ids. service self h (mutation p j) \<noteq> RaisedOther e"
    using Cons.prems by simp
  let ?h = "h @ [mutation p i]"
  show ?case
  proof (cases "service self h (mutation p i)")
    case (Returned m)
    from Cons.IH [OF rest, of "s @ [i]" f ?h] obtain out where
      out: "fst (delete_loop self p ids (s @ [i]) f ?h) = Inr out"
        "length (success out) + length (failed out) = length (s @ [i]) + length f + length ids"
        "set f \<subseteq> set (failed out)"
        "\<forall>k<length ids.
              (\<exists>e. service self (?h @ map (mutation p) (take k ids)) (mutation p (ids ! k))
                     = RaisedHttpError e)
              \<longrightarrow> ids ! k \<in> set (failed out)"
      by blast
    have "\<forall>k<length (i # ids).
              (\<exists>e. service self (h @ map (mutation p) (take k (i # ids))) (mutation p ((i # ids) ! k))
                     = RaisedHttpError e)
              \<longrightarrow> (i # ids) ! k \<in> set (failed out)"
    proof (intro allI impI)
      fix k assume k: "k < length (i # ids)"
        and e: "\<exists>e. service self (h @ map (mutation p) (take k (i # ids))) (mutation p ((i # ids) ! k))
                     = RaisedHttpError e"
      show "(i # ids) ! k \<in> set (failed out)"
      proof (cases k)
        case 0
        then show ?thesis using e Returned by simp
      next
        case (Suc k')
        then show ?thesis using k e out(4) by simp
      qed
    qed
    then show ?thesis using Returned out by (simp add: delete_message_Returned)
  next
    case (RaisedHttpError e0)
    from Cons.IH [OF rest, of s "f @ [i]" ?h] obtain out where
      out: "fst (delete_loop self p ids s (f @ [i]) ?h) = Inr out"
        "length (success out) + length (failed out) = length s + length (f @ [i]) + length ids"
        "set (f @ [i]) \<subseteq> set (failed out)"
        "\<forall>k<length ids.
              (\<exists>e. service self (?h @ map (mutation p) (take k ids)) (mutation p (ids ! k))
                     = RaisedHttpError e)
              \<longrightarrow> ids ! k \<in> set (failed out)"
      by blast
    have "\<forall>k<length (i # ids).
              (\<exists>e. service self (h @ map (mutation p) (take k (i # ids))) (mutation p ((i # ids) ! k))
                     = RaisedHttpError e)
              \<longrightarrow> (i # ids) ! k \<in> set (failed out)"
    proof (intro allI impI)
      fix k assume k: "k < length (i # ids)"
        and e: "\<exists>e. service self (h @ map (mutation p) (take k (i # ids))) (mutation p ((i # ids) ! k))
                     = RaisedHttpError e"
      show "(i # ids) ! k \<in> set (failed out)"
      proof (cases k)
        case 0
        then show ?thesis using out(3) by simp
      next
        case (Suc k')
        then show ?thesis using k e out(4) by simp
      qed
    qed
    then show ?thesis using RaisedHttpError out by (simp add: delete_message_HttpError)
  next
    case (RaisedOther e)
    then show ?thesis using Cons.prems by simp
  qed
qed


text \<open>
  C1, as stated: with \<open>dry_run_mode = true\<close>, \<open>delete_messages_batch\<close> issues no
  trash and no delete call and the success list is the accepted id list. The function
  never reads \<open>dry_run_mode\<close>: under the default configuration, where it is on, two
  accepted ids cost two trash calls.
\<close>

theorem dry_run_zero_calls_counterexample:
  "dry_run_mode (safety (config accepting_client)) \<and>
   delete_messages_batch accepting_client [''m1'', ''m2''] False []
     = (Inr \<lparr> success = [''m1'', ''m2''], failed = [] \<rparr>, [Trash ''m1'', Trash ''m2''])"
  by (simp add: accepting_client_def accepting_service_def default_Config_def
      default_SafetyConfig_def delete_messages_batch_def delete_message_def mutation_def)

text \<open>The configuration of the client has no part in a deletion.\<close>

lemma delete_message_config:
  "delete_message (self\<lparr>config := c\<rparr>) i p h = delete_message self i p h"
  by (simp add: delete_message_def)

lemma delete_loop_config:
  "delete_loop (self\<lparr>config := c\<rparr>) p ids s f h = delete_loop self p ids s f h"
  by (induction ids arbitrary: s f h)
     (simp_all add: delete_message_config split: prod.splits sum.splits exn.splits)

text \<open>
  C1, amended: \<open>delete_messages_batch\<close> has no dry run. With \<open>dry_run_mode = true\<close>
  its outcome and its calls are those of any other configuration of the same client.
  When no call raises anything but \<open>HttpError\<close>, it issues exactly one call per accepted
  id (delete when \<open>permanent\<close>, trash otherwise), in order; when every call returns,
  the success list is the accepted id list and the failed list is empty.
\<close>

theorem dry_run_not_consulted:
  assumes "dry_run_mode (safety (config self))"
  shows "delete_messages_batch (self\<lparr>config := c\<rparr>) ids permanent h
           = delete_messages_batch self ids permanent h
       \<and> ((\<forall>h e. \<forall>i\<in>set ids. service self h (mutation permanent i) \<noteq> RaisedOther e)
            \<longrightarrow> snd (delete_messages_batch self ids permanent h)
                  = h @ map (mutation permanent) ids)
       \<and> ((\<forall>h. \<forall>i\<in>set ids. \<exists>m. service self h (mutation permanent i) = Returned m)
            \<longrightarrow> delete_messages_batch self ids permanent h
                  = (Inr \<lparr> success = ids, failed = [] \<rparr>, h @ map (mutation permanent) ids))"
proof (intro conjI impI)
  show "delete_messages_batch (self\<lparr>config := c\<rparr>) ids permanent h
           = delete_messages_batch self ids permanent h"
    by (simp add: delete_messages_batch_def delete_loop_config)
next
  assume "\<forall>h e. \<forall>i\<in>set ids. service self h (mutation permanent i) \<noteq> RaisedOther e"
  from delete_loop_calls [OF this, of "[]" "[]" h]
  show "snd (delete_messages_batch self ids permanent h) = h @ map (mutation permanent) ids"
    by (cases ids) (simp_all add: delete_messages_batch_def)
next
  assume a: "\<forall>h. \<forall>i\<in>set ids. \<exists>m. service self h (mutation permanent i) = Returned m"
  have split: "\<forall>h. \<forall>i\<in>set ids.
      (True \<longrightarrow> (\<exists>m. service self h (mutation permanent i) = Returned m)) \<and>
      (\<not> True \<longrightarrow> (\<exists>e. service self h (mutation permanent i) = RaisedHttpError e))"
    using a by simp
  show "delete_messages_batch self ids permanent h
          = (Inr \<lparr> success = ids, failed = [] \<rparr>, h @ map (mutation permanent) ids)"
    using delete_loop_partition [OF split, of "[]" "[]" h]
    by (cases ids) (simp_all add: delete_messages_batch_def)
qed

theorem dry_run_not_consulted_witness:
  "delete_messages_batch accepting_client [''m1'', ''m2'', ''m3''] True [Get ''m1'' ''full'']
     = (Inr \<lparr> success = [''m1'', ''m2'', ''m3''], failed = [] \<rparr>,
        [Get ''m1'' ''full'', Delete ''m1'', Delete ''m2'', Delete ''m3''])
   \<and> delete_messages_batch (accepting_client\<lparr>config := live_Config\<rparr>)
        [''m1'', ''m2'', ''m3''] True [Get ''m1'' ''full'']
     = delete_messages_batch accepting_client [''m1'', ''m2'', ''m3''] True [Get ''m1'' ''full'']
   \<and> snd (delete_messages_batch mailbox_client [''a'', ''b'', ''c''] False [])
     = [Trash ''a'', Trash ''b'', Trash ''c'']"
proof -
  have 1: "dry_run_mode (safety (config accepting_client))"
    by (simp add: accepting_client_def default_Config_def default_SafetyConfig_def)
  have 2: "\<forall>h. \<forall>i\<in>set [''m1'', ''m2'', ''m3''].
             \<exists>m. service accepting_client h (mutation True i) = Returned m"
    by (simp add: accepting_client_def accepting_service_def)
  have 3: "dry_run_mode (safety (config mailbox_client))"
    by (simp add: mailbox_client_def default_Config_def default_SafetyConfig_def)
  have 4: "\<forall>h e. \<forall>i\<in>set [''a'', ''b'', ''c''].
             service mailbox_client h (mutation False i) \<noteq> RaisedOther e"
    by (simp add: mailbox_client_def mailbox_service_def mutation_def)
  from dry_run_not_consulted [OF 1, of live_Config "[''m1'', ''m2'', ''m3'']" True
      "[Get ''m1'' ''full'']"] 2
    dry_run_not_consulted [OF 3, of live_Config "[''a'', ''b'', ''c'']" False "[]"] 4
  show ?thesis by (simp add: mutation_def)
qed

text \<open>
  C2, as stated: when every trash or delete call on one of \<open>N\<close> distinct ids raises
  and the others succeed, \<open>delete_messages_batch\<close> returns \<open>N - 1\<close> successes and one
  failure and does not raise. Only \<open>HttpError\<close> is caught: when the call on \<open>b\<close> raises
  a timeout, the exception leaves the function after two calls, nothing is returned
  and \<open>c\<close> is never tried.
\<close>

theorem partial_failure_counterexample:
  "delete_messages_batch timeout_client [''a'', ''b'', ''c''] False []
     = (Inl (OtherException ''timed out''), [Trash ''a'', Trash ''b''])"
  by (simp add: timeout_client_def timeout_service_def delete_messages_batch_def
      delete_message_def mutation_def)

text \<open>
  C2, amended: for \<open>N\<close> distinct ids of which exactly one always fails at the service
  with an \<open>HttpError\<close> (every trash or delete call on it raises \<open>HttpError\<close>) and the
  others always succeed, \<open>delete_messages_batch\<close> does not raise: it returns an outcome
  with the other \<open>N - 1\<close> ids in the success list and the failing id alone in the
  failed list, so \<open>N\<close> attempts in all, one call per id.
\<close>

theorem partial_failure:
  assumes "distinct ids" and "bad \<in> set ids"
    and "\<forall>h. \<exists>e. service self h (mutation permanent bad) = RaisedHttpError e"
    and "\<forall>h. \<forall>i\<in>set ids. i \<noteq> bad \<longrightarrow> (\<exists>m. service self h (mutation permanent i) = Returned m)"
  shows "\<exists>out. delete_messages_batch self ids permanent h
                 = (Inr out, h @ map (mutation permanent) ids)
           \<and> success out = filter (\<lambda>i. i \<noteq> bad) ids \<and> failed out = [bad]
           \<and> length (success out) = length ids - 1 \<and> length (failed out) = 1
           \<and> length (success out) + length (failed out) = length ids"
proof -
  have split: "\<forall>h. \<forall>i\<in>set ids.
      (i \<noteq> bad \<longrightarrow> (\<exists>m. service self h (mutation permanent i) = Returned m)) \<and>
      (\<not> i \<noteq> bad \<longrightarrow> (\<exists>e. service self h (mutation permanent i) = RaisedHttpError e))"
    using assms(3,4) by auto
  have one: "filter (\<lambda>i. \<not> i \<noteq> bad) ids = [bad]"
    using assms(1,2)
    by (induction ids) (auto simp: filter_empty_conv)
  have "length (filter (\<lambda>i. i \<noteq> bad) ids) + length (filter (\<lambda>i. \<not> i \<noteq> bad) ids) = length ids"
    by (rule sum_length_filter_compl)
  then have len: "length (filter (\<lambda>i. i \<noteq> bad) ids) + 1 = length ids"
    using one by simp
  have "ids \<noteq> []" using assms(2) by auto
  then have "delete_messages_batch self ids permanent h
        = (Inr \<lparr> success = filter (\<lambda>i. i \<noteq> bad) ids, failed = [bad] \<rparr>,
           h @ map (mutation permanent) ids)"
    using delete_loop_partition [OF split, of "[]" "[]" h] one
    by (simp add: delete_messages_batch_def)
  then show ?thesis using len by simp
qed

theorem partial_failure_witness:
  "delete_messages_batch mailbox_client [''a'', ''b'', ''c''] False []
     = (Inr \<lparr> success = [''a'', ''c''], failed = [''b''] \<rparr>,
        [Trash ''a'', Trash ''b'', Trash ''c''])"
proof -
  have 1: "distinct [''a'', ''b'', ''c'']" by simp
  have 2: "''b'' \<in> set [''a'', ''b'', ''c'']" by simp
  have 3: "\<forall>h. \<exists>e. service mailbox_client h (mutation False ''b'') = RaisedHttpError e"
    by (simp add: mailbox_client_def mailbox_service_def mutation_def)
  have 4: "\<forall>h. \<forall>i\<in>set [''a'', ''b'', ''c''].
             i \<noteq> ''b'' \<longrightarrow> (\<exists>m. service mailbox_client h (mutation False i) = Returned m)"
    by (simp add: mailbox_client_def mailbox_service_def mutation_def)
  from partial_failure [OF 1 2 3 4, of "[]"]
  show ?thesis by (auto simp: mutation_def)
qed

text \<open>
  C3, as stated: an id whose call fails transiently is retried up to \<open>max_retries\<close>
  times before it is recorded as failed. With \<open>max_retries = 3\<close> and a service that
  would accept the second attempt, each id is recorded as failed after its first call.
\<close>

theorem retry_counterexample:
  "max_retries (safety (config flaky_client)) = 3 \<and>
   service flaky_client [Trash ''m1''] (Trash ''m1'') = Returned [] \<and>
   delete_messages_batch flaky_client [''m1'', ''m2''] False []
     = (Inr \<lparr> success = [], failed = [''m1'', ''m2''] \<rparr>, [Trash ''m1'', Trash ''m2''])"
  by (simp add: flaky_client_def flaky_service_def default_Config_def
      default_SafetyConfig_def delete_messages_batch_def delete_message_def mutation_def)

text \<open>
  C3, amended: \<open>delete_messages_batch\<close> makes no retry and does not read
  \<open>max_retries\<close>. When no call raises anything but \<open>HttpError\<close>, every id gets exactly
  one call, in order; an id whose call raised \<open>HttpError\<close> is recorded in the failed
  list (the id alone, without a reason) and the loop goes on with the next id; every id
  ends in one of the two lists.
\<close>

theorem single_attempt:
  assumes "\<forall>h e. \<forall>i\<in>set ids. service self h (mutation permanent i) \<noteq> RaisedOther e"
  shows "\<exists>out. delete_messages_batch self ids permanent h
                 = (Inr out, h @ map (mutation permanent) ids)
           \<and> length (success out) + length (failed out) = length ids
           \<and> (\<forall>k<length ids.
                (\<exists>e. service self (h @ map (mutation permanent) (take k ids))
                        (mutation permanent (ids ! k)) = RaisedHttpError e)
                \<longrightarrow> ids ! k \<in> set (failed out))"
proof (cases "ids = []")
  case True
  then show ?thesis by (simp add: delete_messages_batch_def)
next
  case False
  obtain out where out: "fst (delete_loop self permanent ids [] [] h) = Inr out"
    "length (success out) + length (failed out) = length ([]::string list) + length ([]::string list) + length ids"
    "\<forall>k<length ids.
        (\<exists>e. service self (h @ map (mutation permanent) (take k ids))
                (mutation permanent (ids ! k)) = RaisedHttpError e)
        \<longrightarrow> ids ! k \<in> set (failed out)"
    using delete_loop_failed [OF assms, of "[]" "[]" h] by blast
  have "delete_loop self permanent ids [] [] h = (Inr out, h @ map (mutation permanent) ids)"
    using out(1) delete_loop_calls [OF assms, of "[]" "[]" h]
    by (simp add: prod_eq_iff)
  then show ?thesis using False out(2,3) by (simp add: delete_messages_batch_def)
qed

theorem single_attempt_witness:
  "\<exists>out. delete_messages_batch flaky_client [''m1'', ''m2''] False []
                 = (Inr out, [Trash ''m1'', Trash ''m2''])
           \<and> length (success out) + length (failed out) = 2
           \<and> ''m1'' \<in> set (failed out) \<and> ''m2'' \<in> set (failed out)"
proof -
  have 1: "\<forall>h e. \<forall>i\<in>set [''m1'', ''m2'']. service flaky_client h (mutation False i) \<noteq> RaisedOther e"
    by (simp add: flaky_client_def flaky_service_def)
  from single_attempt [OF 1, of "[]"] obtain out where
    out: "delete_messages_batch flaky_client [''m1'', ''m2''] False []
            = (Inr out, [] @ map (mutation False) [''m1'', ''m2''])"
      "length (success out) + length (failed out) = length [''m1'', ''m2'']"
      "\<forall>k<length [''m1'', ''m2''].
        (\<exists>e. service flaky_client ([] @ map (mutation False) (take k [''m1'', ''m2'']))
                (mutation False ([''m1'', ''m2''] ! k)) = RaisedHttpError e)
        \<longrightarrow> [''m1'', ''m2''] ! k \<in> set (failed out)"
    by blast
  have "''m1'' \<in> set (failed out)"
    using out(3) [rule_format, of 0]
    by (simp add: flaky_client_def flaky_service_def mutation_def)
  moreover have "''m2'' \<in> set (failed out)"
    using out(3) [rule_format, of 1]
    by (simp add: flaky_client_def flaky_service_def mutation_def)
  ultimately show ?thesis using out(1,2) by (simp add: mutation_def)
qed


section \<open>Batch retrieval\<close>

lemma get_message_Returned:
  "service self h (Get i fmt) = Returned m \<Longrightarrow> get_message self i fmt h = (Inr m, h @ [Get i fmt])"
  by (simp add: get_message_def)

lemma get_message_fails:
  "\<forall>m. service self h (Get i fmt) \<noteq> Returned m \<Longrightarrow>
   \<exists>e. get_message self i fmt h = (Inl e, h @ [Get i fmt])"
  by (cases "service self h (Get i fmt)") (simp_all add: get_message_def)

lemma fetch_batch_fails:
  assumes "bad \<in> set batch_ids" "\<forall>h m. service self h (Get bad fmt) \<noteq> Returned m"
  shows "\<exists>e h'. fetch_batch self fmt batch_ids acc h = (Inl e, h')"
  using assms(1)
proof (induction batch_ids arbitrary: acc h)
  case Nil
  then show ?case by simp
next
  case (Cons i rest)
  show ?case
  proof (cases "get_message self i fmt h")
    case (Pair r h1)
    show ?thesis
    proof (cases r)
      case (Inl e)
      then show ?thesis using Pair by simp
    next
      case (Inr m)
      have "i \<noteq> bad"
      proof
        assume "i = bad"
        then obtain e where "get_message self i fmt h = (Inl e, h @ [Get i fmt])"
          using get_message_fails [of self h i fmt] assms(2) by blast
        then show False using Pair Inr by simp
      qed
      then have "bad \<in> set rest" using Cons.prems by simp
      then show ?thesis using Cons.IH Pair Inr by simp
    qed
  qed
qed

lemma get_batches_fails:
  assumes "\<exists>b\<in>set batches. bad \<in> set b" "\<forall>h m. service self h (Get bad fmt) \<noteq> Returned m"
  shows "\<exists>msg h'. get_batches self fmt batches acc h = (Inl (GmailAPIError msg), h')"
  using assms(1)
proof (induction batches arbitrary: acc h)
  case Nil
  then show ?case by simp
next
  case (Cons b rest)
  show ?case
  proof (cases "fetch_batch self fmt b [] h")
    case (Pair r h1)
    show ?thesis
    proof (cases r)
      case (Inl e)
      then show ?thesis using Pair by simp
    next
      case (Inr ms)
      have "bad \<notin> set b"
      proof
        assume "bad \<in> set b"
        then obtain e h' where "fetch_batch self fmt b [] h = (Inl e, h')"
          using fetch_batch_fails [OF _ assms(2)] by blast
        then show False using Pair Inr by simp
      qed
      then have "\<exists>b\<in>set rest. bad \<in> set b" using Cons.prems by simp
      then show ?thesis using Cons.IH Pair Inr by simp
    qed
  qed
qed

lemma concat_batches_from: "concat (batches_from i xs) = drop i xs"
proof (induction i xs rule: batches_from.induct)
  case (1 i xs)
  show ?case
  proof (cases "i < length xs")
    case True
    have "take 100 (drop i xs) @ drop (i + 100) xs
            = take 100 (drop i xs) @ drop 100 (drop i xs)"
      by (simp add: add.commute)
    also have "\<dots> = drop i xs"
      by (rule append_take_drop_id)
    finally show ?thesis
      using True "1.IH" by (subst batches_from.simps) simp
  next
    case False
    then show ?thesis by (subst batches_from.simps) simp
  qed
qed

lemma batches_from_cover:
  assumes "bad \<in> set ids"
  shows "\<exists>b\<in>set (batches_from 0 ids). bad \<in> set b"
proof -
  have "bad \<in> set (concat (batches_from 0 ids))"
    using assms by (simp add: concat_batches_from)
  then show ?thesis by auto
qed

lemma fetch_batch_all:
  assumes "\<forall>h. \<forall>i\<in>set batch_ids. service self h (Get i fmt) = Returned (f i)"
  shows "fetch_batch self fmt batch_ids acc h =
           (Inr (acc @ map f batch_ids), h @ map (\<lambda>i. Get i fmt) batch_ids)"
  using assms
  by (induction batch_ids arbitrary: acc h) (simp_all add: get_message_Returned)

lemma get_batches_all:
  assumes "\<forall>h. \<forall>i\<in>set (concat batches). service self h (Get i fmt) = Returned (f i)"
  shows "get_batches self fmt batches acc h =
           (Inr (acc @ map f (concat batches)), h @ map (\<lambda>i. Get i fmt) (concat batches))"
  using assms
proof (induction batches arbitrary: acc h)
  case Nil
  then show ?case by simp
next
  case (Cons b rest)
  have b: "\<forall>h. \<forall>i\<in>set b. service self h (Get i fmt) = Returned (f i)"
    using Cons.prems by simp
  have r: "\<forall>h. \<forall>i\<in>set (concat rest). service self h (Get i fmt) = Returned (f i)"
    using Cons.prems by simp
  show ?case
    using Cons.IH [OF r] by (simp add: fetch_batch_all [OF b])
qed

text \<open>
  C4, as stated: when the fetch of one candidate fails, \<open>get_messages_batch\<close> skips
  that candidate and returns the messages of the others. In the mailbox where the
  fetch of \<open>b\<close> fails, the retrieval of \<open>a\<close>, \<open>b\<close>, \<open>c\<close> raises \<open>GmailAPIError\<close>
  at \<open>b\<close>: nothing is returned and \<open>c\<close> is never fetched.
\<close>

theorem get_messages_batch_skip_counterexample:
  "get_messages_batch mailbox_client [''a'', ''b'', ''c''] ''full'' [] =
     (Inl (GmailAPIError ''Batch message retrieval failed: Failed to get message b: 404''),
      [Get ''a'' ''full'', Get ''b'' ''full''])"
  by (simp add: get_messages_batch_def batches_from.simps mailbox_client_def
      mailbox_service_def get_message_def)

text \<open>
  C4, amended: when the fetch of one candidate of the list always fails,
  \<open>get_messages_batch\<close> raises \<open>GmailAPIError\<close> and returns no message, so one failure
  aborts the whole retrieval; when every fetch succeeds, it returns the messages of all
  candidates, in order, with one call per candidate.
\<close>

theorem get_messages_batch_aborts:
  "(bad \<in> set ids \<and> (\<forall>h m. service self h (Get bad fmt) \<noteq> Returned m)
      \<longrightarrow> (\<exists>msg h'. get_messages_batch self ids fmt h = (Inl (GmailAPIError msg), h')))
   \<and> ((\<forall>h. \<forall>i\<in>set ids. service self h (Get i fmt) = Returned (f i))
      \<longrightarrow> get_messages_batch self ids fmt h = (Inr (map f ids), h @ map (\<lambda>i. Get i fmt) ids))"
proof (intro conjI impI)
  assume a: "bad \<in> set ids \<and> (\<forall>h m. service self h (Get bad fmt) \<noteq> Returned m)"
  then have "ids \<noteq> []" by auto
  then show "\<exists>msg h'. get_messages_batch self ids fmt h = (Inl (GmailAPIError msg), h')"
    using a get_batches_fails [OF batches_from_cover, of bad ids self fmt "[]" h]
    by (simp add: get_messages_batch_def)
next
  assume a: "\<forall>h. \<forall>i\<in>set ids. service self h (Get i fmt) = Returned (f i)"
  then have "\<forall>h. \<forall>i\<in>set (concat (batches_from 0 ids)). service self h (Get i fmt) = Returned (f i)"
    by (simp add: concat_batches_from)
  from get_batches_all [OF this, of "[]" h]
  show "get_messages_batch self ids fmt h = (Inr (map f ids), h @ map (\<lambda>i. Get i fmt) ids)"
    by (simp add: get_messages_batch_def concat_batches_from)
qed

theorem get_messages_batch_aborts_witness:
  "(\<exists>msg h'. get_messages_batch mailbox_client [''a'', ''b''] ''full'' [] = (Inl (GmailAPIError msg), h'))
   \<and> get_messages_batch mailbox_client [''a'', ''c''] ''full'' []
       = (Inr [''message a'', ''message c''], [Get ''a'' ''full'', Get ''c'' ''full''])"
proof -
  have 1: "''b'' \<in> set [''a'', ''b''] \<and> (\<forall>h m. service mailbox_client h (Get ''b'' ''full'') \<noteq> Returned m)"
    by (simp add: mailbox_client_def mailbox_service_def)
  have 2: "\<forall>h. \<forall>i\<in>set [''a'', ''c'']. service mailbox_client h (Get i ''full'') = Returned (''message '' @ i)"
    by (simp add: mailbox_client_def mailbox_service_def)
  show ?thesis
    using get_messages_batch_aborts [where bad = "''b''" and ids = "[''a'', ''b'']"
        and self = mailbox_client and fmt = "''full''" and h = "[]", THEN conjunct1] 1
      get_messages_batch_aborts [where ids = "[''a'', ''c'']" and f = "\<lambda>i. ''message '' @ i"
        and self = mailbox_client and fmt = "''full''" and h = "[]", THEN conjunct2] 2
    by simp
qed



section \<open>The stages of the filter\<close>

subsection \<open>The exclusion stage\<close>

text \<open>
  A label of the exclude list that is among the labels of the message makes the first
  loop return; whatever the exclusion stage returns is a rejection of stage
  \<open>exclusion\<close> with confidence 1.
\<close>

lemma exclude_label_loop_hit:
  assumes "\<exists>l\<in>set labels. PStr l \<in> set ls"
  shows "\<exists>l\<in>set labels. PStr l \<in> set ls \<and>
           exclude_label_loop labels (PList ls) =
             Inr (Some \<lparr> should_process = False, reason = ''Has excluded label: '' @ l,
                         confidence = 1, filter_type = ''exclusion'',
                         metadata = [(''excluded_label'', Plain (PStr l))] \<rparr>)"
  using assms by (induction labels) auto

lemma exclude_label_loop_result:
  "exclude_label_loop labels v = Inr (Some r) \<Longrightarrow>
   \<not> should_process r \<and> filter_type r = ''exclusion'' \<and> confidence r = 1"
  by (induction labels) (auto split: sum.splits if_splits)

lemma exclude_folder_loop_result:
  "exclude_folder_loop folders v = Inr (Some r) \<Longrightarrow>
   \<not> should_process r \<and> filter_type r = ''exclusion'' \<and> confidence r = 1"
  by (induction folders) (auto split: sum.splits if_splits)

lemma exclude_sender_loop_result:
  "exclude_sender_loop senders s = Some r \<Longrightarrow>
   \<not> should_process r \<and> filter_type r = ''exclusion'' \<and> confidence r = 1"
  by (induction senders) (auto split: if_splits)

lemma check_exclusions_result:
  "check_exclusions cfg md = Inr (Some r) \<Longrightarrow>
   \<not> should_process r \<and> filter_type r = ''exclusion'' \<and> confidence r = 1"
  unfolding check_exclusions_def Let_def
  by (auto split: sum.splits option.splits
      dest: exclude_label_loop_result exclude_folder_loop_result exclude_sender_loop_result)

text \<open>
  C6: for every metadata whose label list holds at least one label of the configured
  exclude-label list, \<open>should_process_email\<close> returns a rejection with filter stage
  \<open>exclusion\<close> and confidence 1.0 (its reason names such a label), whatever the
  other fields of the message (date, size, sender, subject, even ill-typed ones) and
  whatever the other configured filters: the exclusion stage runs first and no later
  stage is evaluated.
\<close>

theorem excluded_label_rejects:
  assumes "md ''label_ids'' = Some (PList ls)"
    and "\<exists>l\<in>set (exclude_labels cfg). PStr l \<in> set ls"
  shows "\<exists>l\<in>set (exclude_labels cfg). PStr l \<in> set ls \<and>
           should_process_email cfg rt md =
             Inr \<lparr> should_process = False, reason = ''Has excluded label: '' @ l,
                   confidence = 1, filter_type = ''exclusion'',
                   metadata = [(''excluded_label'', Plain (PStr l))] \<rparr>"
proof -
  obtain l where l: "l \<in> set (exclude_labels cfg)" "PStr l \<in> set ls"
    "exclude_label_loop (exclude_labels cfg) (PList ls) =
       Inr (Some \<lparr> should_process = False, reason = ''Has excluded label: '' @ l,
                   confidence = 1, filter_type = ''exclusion'',
                   metadata = [(''excluded_label'', Plain (PStr l))] \<rparr>)"
    using exclude_label_loop_hit [OF assms(2)] by blast
  have "check_exclusions cfg md =
       Inr (Some \<lparr> should_process = False, reason = ''Has excluded label: '' @ l,
                   confidence = 1, filter_type = ''exclusion'',
                   metadata = [(''excluded_label'', Plain (PStr l))] \<rparr>)"
    using assms(1) l(3) by (simp add: check_exclusions_def dict_get_def)
  then have "should_process_email cfg rt md =
             Inr \<lparr> should_process = False, reason = ''Has excluded label: '' @ l,
                   confidence = 1, filter_type = ''exclusion'',
                   metadata = [(''excluded_label'', Plain (PStr l))] \<rparr>"
    by (simp add: should_process_email_def)
  then show ?thesis using l(1,2) by blast
qed

theorem excluded_label_rejects_witness:
  "should_process_email default_FilterConfig plain_runtime important_recent =
     Inr \<lparr> should_process = False, reason = ''Has excluded label: IMPORTANT'',
           confidence = 1, filter_type = ''exclusion'',
           metadata = [(''excluded_label'', Plain (PStr ''IMPORTANT''))] \<rparr>"
proof -
  have 1: "important_recent ''label_ids'' = Some (PList [PStr ''INBOX'', PStr ''IMPORTANT''])"
    by (simp add: important_recent_def)
  have 2: "\<exists>l\<in>set (exclude_labels default_FilterConfig).
             PStr l \<in> set [PStr ''INBOX'', PStr ''IMPORTANT'']"
    by (simp add: default_FilterConfig_def)
  from excluded_label_rejects [where md = important_recent and cfg = default_FilterConfig
      and ls = "[PStr ''INBOX'', PStr ''IMPORTANT'']" and rt = plain_runtime] 1 2
  show ?thesis by (auto simp: default_FilterConfig_def)
qed

subsection \<open>Totality on well-typed metadata\<close>

text \<open>
  On a well-typed dictionary whose numbers fit no stage raises, whichever keys are
  missing, and so the loop over the stages returns a result.
\<close>

lemma exclude_label_loop_list: "\<exists>x. exclude_label_loop labels (PList ls) = Inr x"
  by (induction labels) auto

lemma exclude_folder_loop_list: "\<exists>x. exclude_folder_loop folders (PList ls) = Inr x"
  by (induction folders) auto


lemma well_typed_label_ids:
  "well_typed md \<Longrightarrow> \<exists>ls. dict_get md ''label_ids'' (PList []) = PList ls"
  by (auto simp: well_typed_def dict_get_def split: option.splits pyval.splits)

lemma well_typed_from:
  "well_typed md \<Longrightarrow> \<exists>s. dict_get md ''from'' (PStr []) = PStr s"
  by (auto simp: well_typed_def dict_get_def split: option.splits pyval.splits)

lemma well_typed_size:
  "well_typed md \<Longrightarrow> \<exists>n. dict_get md ''size_estimate'' (PInt 0) = PInt n"
  by (auto simp: well_typed_def dict_get_def split: option.splits pyval.splits)


lemma check_exclusions_total:
  assumes "well_typed md"
  shows "\<exists>x. check_exclusions cfg md = Inr x"
proof -
  obtain ls where ls: "dict_get md ''label_ids'' (PList []) = PList ls"
    using well_typed_label_ids [OF assms] by blast
  obtain s where s: "dict_get md ''from'' (PStr []) = PStr s"
    using well_typed_from [OF assms] by blast
  obtain x where x: "exclude_label_loop (exclude_labels cfg) (PList ls) = Inr x"
    using exclude_label_loop_list by blast
  obtain y where y: "exclude_folder_loop (exclude_folders cfg) (PList ls) = Inr y"
    using exclude_folder_loop_list by blast
  show ?thesis
    by (simp add: check_exclusions_def ls s x y split: option.splits)
qed

















subsection \<open>The time stage\<close>

lemma check_time_filters_absent:
  assumes "md ''date'' = None \<or> md ''date'' = Some PNone"
  shows "check_time_filters cfg rt md =
           Inr (Some \<lparr> should_process = False, reason = ''Unable to parse email date'',
                       confidence = 1 / 2, filter_type = ''time'',
                       metadata = [(''date_parse_error'', Plain (PBool True))] \<rparr>)"
  using assms by (auto simp: check_time_filters_def dict_get_def)












text \<open>
  C7, as stated: every metadata with an absent timestamp is rejected with stage
  \<open>time\<close>, confidence 0.5 and reason "unparseable date". A message with no date and
  the label \<open>IMPORTANT\<close> is rejected by the exclusion stage, which runs first, with
  confidence 1.
\<close>

theorem absent_date_counterexample:
  "important_undated ''date'' = None \<and>
   should_process_email default_FilterConfig plain_runtime important_undated =
     Inr \<lparr> should_process = False, reason = ''Has excluded label: IMPORTANT'',
           confidence = 1, filter_type = ''exclusion'',
           metadata = [(''excluded_label'', Plain (PStr ''IMPORTANT''))] \<rparr>"
  by (simp add: important_undated_def should_process_email_def check_exclusions_def
      dict_get_def default_FilterConfig_def)

text \<open>
  C7, amended: for every metadata with an absent timestamp (the key missing or
  \<open>None\<close>), when the exclusion stage does not reject, \<open>should_process_email\<close> returns
  a rejection with stage \<open>time\<close>, confidence 0.5 and reason
  "Unable to parse email date"; when the exclusion stage rejects, that rejection (stage
  \<open>exclusion\<close>, confidence 1) is returned. On well-typed metadata the evaluation does
  not raise and the decision is a rejection in both cases: a message of unknown age is
  never eligible.
\<close>

theorem absent_date_rejects:
  assumes "md ''date'' = None \<or> md ''date'' = Some PNone"
  shows "(check_exclusions cfg md = Inr None \<longrightarrow>
            should_process_email cfg rt md =
              Inr \<lparr> should_process = False, reason = ''Unable to parse email date'',
                    confidence = 1 / 2, filter_type = ''time'',
                    metadata = [(''date_parse_error'', Plain (PBool True))] \<rparr>)
       \<and> (\<forall>r. check_exclusions cfg md = Inr (Some r) \<longrightarrow>
            should_process_email cfg rt md = Inr r \<and> \<not> should_process r
            \<and> filter_type r = ''exclusion'' \<and> confidence r = 1)
       \<and> (well_typed md \<longrightarrow>
            (\<exists>r. should_process_email cfg rt md = Inr r \<and> \<not> should_process r))"
proof (intro conjI impI allI)
  assume "check_exclusions cfg md = Inr None"
  then show "should_process_email cfg rt md =
              Inr \<lparr> should_process = False, reason = ''Unable to parse email date'',
                    confidence = 1 / 2, filter_type = ''time'',
                    metadata = [(''date_parse_error'', Plain (PBool True))] \<rparr>"
    using check_time_filters_absent [where md = md and cfg = cfg and rt = rt] assms
    by (simp add: should_process_email_def)
next
  fix r assume r: "check_exclusions cfg md = Inr (Some r)"
  have p: "\<not> should_process r \<and> filter_type r = ''exclusion'' \<and> confidence r = 1"
    using check_exclusions_result [OF r] .
  then show "should_process_email cfg rt md = Inr r"
    using r by (simp add: should_process_email_def)
  show "\<not> should_process r" using p by simp
  show "filter_type r = ''exclusion''" using p by simp
  show "confidence r = 1" using p by simp
next
  assume wt: "well_typed md"
  obtain x where x: "check_exclusions cfg md = Inr x"
    using check_exclusions_total [OF wt] by blast
  show "\<exists>r. should_process_email cfg rt md = Inr r \<and> \<not> should_process r"
  proof (cases x)
    case None
    then show ?thesis
      using x check_time_filters_absent [where md = md and cfg = cfg and rt = rt] assms
      by (simp add: should_process_email_def)
  next
    case (Some r)
    then show ?thesis
      using x check_exclusions_result [of cfg md r] by (simp add: should_process_email_def)
  qed
qed

theorem absent_date_rejects_witness:
  "should_process_email default_FilterConfig plain_runtime inbox_undated =
     Inr \<lparr> should_process = False, reason = ''Unable to parse email date'',
           confidence = 1 / 2, filter_type = ''time'',
           metadata = [(''date_parse_error'', Plain (PBool True))] \<rparr>"
proof -
  have 1: "inbox_undated ''date'' = None \<or> inbox_undated ''date'' = Some PNone"
    by (simp add: inbox_undated_def)
  have 2: "check_exclusions default_FilterConfig inbox_undated = Inr None"
    by (simp add: check_exclusions_def inbox_undated_def dict_get_def default_FilterConfig_def
        lower_def)
  from absent_date_rejects [where md = inbox_undated and cfg = default_FilterConfig
      and rt = plain_runtime] 1 2
  show ?thesis by simp
qed

subsection \<open>Missing keys\<close>




section \<open>Categories\<close>

lemma lower_special_offer:
  "lower ''Special Offer - 50% Off!'' = ''special offer - 50% off!''"
  by code_simp

lemma promotional_score_special_offer:
  "promotional_score ''special offer - 50% off!'' = 4 / 10"
  by (simp add: promotional_score_def promotional_keywords_def)

text \<open>
  C8, as stated: the message with subject "Special Offer - 50% Off!" and sender
  "sales@retailer.com" gets a promotional score of at least 0.4 and
  \<open>is_promotional = true\<close>. The score is 0.4 (for \<open>offer\<close> and \<open>%\<close>), which is not above
  the threshold, so \<open>is_promotional\<close> is false.
\<close>

theorem special_offer_counterexample:
  "categorize_email default_FilterConfig plain_runtime special_offer =
     Inr \<lparr> is_newsletter = False, is_promotional = False, is_automated = False,
           is_social = False, is_receipt = False,
           confidence_scores = [(''newsletter'', 3 / 10), (''automated'', 0),
                                (''promotional'', 4 / 10), (''receipt'', 0)] \<rparr>"
  by (simp add: categorize_email_def special_offer_def dict_get_def lower_special_offer
      plain_runtime_def promotional_score_special_offer)
     (simp add: lower_def lower_char_def newsletter_score_def automated_score_def
      receipt_score_def newsletter_patterns_def automated_patterns_def receipt_keywords_def
      pattern_search_def default_FilterConfig_def)

text \<open>
  C8, amended: for a message with subject "Special Offer - 50% Off!" and sender
  "sales@retailer.com", \<open>categorize_email\<close> yields a promotional score of exactly 0.4
  (0.2 for each of the two keywords found in the lower-cased subject) and, the
  threshold being strict (\<open>score > 0.4\<close>), sets \<open>is_promotional = false\<close>.
\<close>

theorem special_offer_scores:
  assumes "md ''subject'' = Some (PStr ''Special Offer - 50% Off!'')"
    and "md ''from'' = Some (PStr ''sales@retailer.com'')"
  shows "\<exists>c. categorize_email cfg rt md = Inr c \<and> \<not> is_promotional c
           \<and> map_of (confidence_scores c) ''promotional'' = Some (4 / 10)
           \<and> promotional_score (lower ''Special Offer - 50% Off!'') = 4 / 10"
  using assms
  by (simp add: categorize_email_def dict_get_def lower_special_offer
      promotional_score_special_offer Let_def)

theorem special_offer_scores_witness:
  "\<exists>c. categorize_email default_FilterConfig plain_runtime special_offer = Inr c
       \<and> \<not> is_promotional c
       \<and> map_of (confidence_scores c) ''promotional'' = Some (4 / 10)"
proof -
  have 1: "special_offer ''subject'' = Some (PStr ''Special Offer - 50% Off!'')"
    by (simp add: special_offer_def)
  have 2: "special_offer ''from'' = Some (PStr ''sales@retailer.com'')"
    by (simp add: special_offer_def)
  from special_offer_scores [where md = special_offer and cfg = default_FilterConfig
      and rt = plain_runtime] 1 2
  show ?thesis by blast
qed

section \<open>The query\<close>

text \<open>
  \<open>substring\<close> is containment as a contiguous piece, and a joined string contains each
  of its parts.
\<close>

lemma substring_sublist: "substring sub s \<longleftrightarrow> sublist sub s"
  by (induction s) (simp_all add: sublist_Cons_right)

lemma substring_join:
  "x \<in> set xs \<Longrightarrow> substring x (join sep xs)"
proof (induction sep xs rule: join.induct)
  case (1 sep)
  then show ?case by simp
next
  case (2 sep y)
  then show ?case by (simp add: substring_sublist)
next
  case (3 sep y z zs)
  show ?case
  proof (cases "x = y")
    case True
    then show ?thesis by (simp add: substring_sublist sublist_append_rightI)
  next
    case False
    then have "substring x (join sep (z # zs))" using 3 by simp
    then have "sublist x (join sep (z # zs))"
      by (simp add: substring_sublist)
    then have "sublist x (y @ sep @ join sep (z # zs))"
      by (simp add: sublist_append)
    then show ?thesis by (simp add: substring_sublist)
  qed
qed

lemma str_int_30: "str_int 30 = ''30''"
  by code_simp

text \<open>
  C9: \<open>build_gmail_query\<close> is a function of the configuration alone. For every
  configuration with \<open>older_than_days = 30\<close> and \<open>exclude_labels = [SENT]\<close> its
  output contains the clause \<open>older_than:30d\<close> and the clause \<open>-label:SENT\<close>; when
  all other rule lists are empty and the other bounds unset, the output is exactly
  \<open>older_than:30d -label:SENT\<close>.
\<close>

theorem query_clauses:
  assumes "older_than_days cfg = Some 30" and "exclude_labels cfg = [''SENT'']"
  shows "substring ''older_than:30d'' (build_gmail_query cfg)
       \<and> substring ''-label:SENT'' (build_gmail_query cfg)
       \<and> (newer_than_days cfg = None \<and> min_size_mb cfg = None \<and> max_size_mb cfg = None
            \<and> exclude_folders cfg = [] \<and> include_labels cfg = [] \<and> exclude_senders cfg = []
            \<and> include_senders cfg = [] \<and> custom_queries cfg = []
          \<longrightarrow> build_gmail_query cfg = ''older_than:30d -label:SENT'')"
proof (intro conjI impI)
  show "substring ''older_than:30d'' (build_gmail_query cfg)"
    unfolding build_gmail_query_def
    by (rule substring_join) (simp add: assms str_int_30)
  show "substring ''-label:SENT'' (build_gmail_query cfg)"
    unfolding build_gmail_query_def
    by (rule substring_join) (simp add: assms)
next
  assume "newer_than_days cfg = None \<and> min_size_mb cfg = None \<and> max_size_mb cfg = None
            \<and> exclude_folders cfg = [] \<and> include_labels cfg = [] \<and> exclude_senders cfg = []
            \<and> include_senders cfg = [] \<and> custom_queries cfg = []"
  then show "build_gmail_query cfg = ''older_than:30d -label:SENT''"
    by (simp add: build_gmail_query_def assms str_int_30)
qed

theorem query_clauses_witness:
  "build_gmail_query query_config = ''older_than:30d -label:SENT''
   \<and> substring ''older_than:30d'' (build_gmail_query query_config)
   \<and> substring ''-label:SENT'' (build_gmail_query query_config)"
proof -
  have 1: "older_than_days query_config = Some 30" by (simp add: query_config_def)
  have 2: "exclude_labels query_config = [''SENT'']" by (simp add: query_config_def)
  have 3: "newer_than_days query_config = None \<and> min_size_mb query_config = None
            \<and> max_size_mb query_config = None
            \<and> exclude_folders query_config = [] \<and> include_labels query_config = []
            \<and> exclude_senders query_config = []
            \<and> include_senders query_config = [] \<and> custom_queries query_config = []"
    by (simp add: query_config_def)
  from query_clauses [OF 1 2] 3 show ?thesis by blast
qed

end
